theory Spec2Isabelle
  imports Main "HOL-Library.Word" "HOL-Library.Sublist" "HOL-Library.Multiset"
begin

section \<open>JavaScript strings and the built-ins the content script calls\<close>

text \<open>
  A JavaScript string is a sequence of 16-bit UTF-16 code units. String literals of the
  source are ASCII and are written \<open>ascii ''...''\<close>.
\<close>

type_synonym code_unit = "16 word"
type_synonym jsstring = "code_unit list"

definition ascii :: "string \<Rightarrow> jsstring" where
  "ascii s = map of_char s"

datatype js_error = TypeError | URIError | InvalidCharacterError | NotFoundError

text \<open>\<open>String.prototype.trim\<close>: strips WhiteSpace and LineTerminator code points at both ends.\<close>

definition isWhiteSpace :: "code_unit \<Rightarrow> bool" where
  "isWhiteSpace c =
     (c = 0x9 \<or> c = 0xA \<or> c = 0xB \<or> c = 0xC \<or> c = 0xD \<or> c = 0x20 \<or> c = 0xA0 \<or>
      c = 0x1680 \<or> (0x2000 \<le> c \<and> c \<le> 0x200A) \<or> c = 0x2028 \<or> c = 0x2029 \<or>
      c = 0x202F \<or> c = 0x205F \<or> c = 0x3000 \<or> c = 0xFEFF)"

definition trim :: "jsstring \<Rightarrow> jsstring" where
  "trim s = rev (dropWhile isWhiteSpace (rev (dropWhile isWhiteSpace s)))"

text \<open>\<open>stripPrefix p s\<close> is the rest of \<open>s\<close> after the literal \<open>p\<close>, when \<open>s\<close> starts with it.\<close>

fun stripPrefix :: "'a list \<Rightarrow> 'a list \<Rightarrow> 'a list option" where
  "stripPrefix [] s = Some s"
| "stripPrefix (p # ps) [] = None"
| "stripPrefix (p # ps) (c # cs) = (if p = c then stripPrefix ps cs else None)"

text \<open>
  \<open>encodeURIComponent\<close> (ECMAScript \<open>Encode\<close> with the unreserved set
  \<open>A-Z a-z 0-9 - _ . ! ~ * ' ( )\<close>): an unreserved code unit is copied, any other code point
  is written as the percent-escapes of its UTF-8 bytes, and a lone surrogate throws URIError.
\<close>

definition uriUnreserved :: "code_unit \<Rightarrow> bool" where
  "uriUnreserved c =
     ((0x41 \<le> c \<and> c \<le> 0x5A) \<or> (0x61 \<le> c \<and> c \<le> 0x7A) \<or> (0x30 \<le> c \<and> c \<le> 0x39) \<or>
      c = 0x2D \<or> c = 0x5F \<or> c = 0x2E \<or> c = 0x21 \<or> c = 0x7E \<or> c = 0x2A \<or> c = 0x27 \<or>
      c = 0x28 \<or> c = 0x29)"

definition isHighSurrogate :: "code_unit \<Rightarrow> bool" where
  "isHighSurrogate c = (0xD800 \<le> c \<and> c \<le> 0xDBFF)"

definition isLowSurrogate :: "code_unit \<Rightarrow> bool" where
  "isLowSurrogate c = (0xDC00 \<le> c \<and> c \<le> 0xDFFF)"

definition utf8 :: "nat \<Rightarrow> nat list" where
  "utf8 cp =
     (if cp < 0x80 then [cp]
      else if cp < 0x800 then [0xC0 + cp div 0x40, 0x80 + cp mod 0x40]
      else if cp < 0x10000 then
        [0xE0 + cp div 0x1000, 0x80 + (cp div 0x40) mod 0x40, 0x80 + cp mod 0x40]
      else
        [0xF0 + cp div 0x40000, 0x80 + (cp div 0x1000) mod 0x40,
         0x80 + (cp div 0x40) mod 0x40, 0x80 + cp mod 0x40])"

definition hexDigit :: "nat \<Rightarrow> code_unit" where
  "hexDigit n = ascii ''0123456789ABCDEF'' ! (n mod 16)"

definition percentByte :: "nat \<Rightarrow> jsstring" where
  "percentByte b = [0x25, hexDigit (b div 16), hexDigit (b mod 16)]"

definition percentEncode :: "nat \<Rightarrow> jsstring" where
  "percentEncode cp = concat (map percentByte (utf8 cp))"

definition surrogatePair :: "code_unit \<Rightarrow> code_unit \<Rightarrow> nat" where
  "surrogatePair hi lo = (unat hi - 0xD800) * 0x400 + (unat lo - 0xDC00) + 0x10000"

fun prepend :: "jsstring \<Rightarrow> js_error + jsstring \<Rightarrow> js_error + jsstring" where
  "prepend p (Inl e) = Inl e"
| "prepend p (Inr s) = Inr (p @ s)"

fun encodeURIComponent :: "jsstring \<Rightarrow> js_error + jsstring" where
  "encodeURIComponent [] = Inr []"
| "encodeURIComponent (c # cs) =
     (if uriUnreserved c then prepend [c] (encodeURIComponent cs)
      else if isLowSurrogate c then Inl URIError
      else if isHighSurrogate c then
        (case cs of
           [] \<Rightarrow> Inl URIError
         | d # ds \<Rightarrow>
             if isLowSurrogate d
             then prepend (percentEncode (surrogatePair c d)) (encodeURIComponent ds)
             else Inl URIError)
      else prepend (percentEncode (unat c)) (encodeURIComponent cs))"

text \<open>
  \<open>btoa\<close>: base64 of a string of code units below 256 (InvalidCharacterError otherwise),
  three bytes to four characters, padded with \<open>=\<close>.
\<close>

definition b64Char :: "nat \<Rightarrow> code_unit" where
  "b64Char n =
     ascii ''ABCDEFGHIJKLMNOPQRSTUVWXYZabcdefghijklmnopqrstuvwxyz0123456789+/'' ! (n mod 64)"

fun base64 :: "nat list \<Rightarrow> jsstring" where
  "base64 [] = []"
| "base64 [a] = [b64Char (a div 4), b64Char ((a mod 4) * 16), 0x3D, 0x3D]"
| "base64 [a, b] =
     [b64Char (a div 4), b64Char ((a mod 4) * 16 + b div 16), b64Char ((b mod 16) * 4), 0x3D]"
| "base64 (a # b # c # bs) =
     [b64Char (a div 4), b64Char ((a mod 4) * 16 + b div 16),
      b64Char ((b mod 16) * 4 + c div 64), b64Char (c mod 64)] @ base64 bs"

definition btoa :: "jsstring \<Rightarrow> js_error + jsstring" where
  "btoa s = (if list_ex (\<lambda>c. 0xFF < c) s then Inl InvalidCharacterError
             else Inr (base64 (map unat s)))"

text \<open>\<open>s.substring(0, n)\<close> with \<open>0 \<le> n\<close> is \<open>take n s\<close>.\<close>

definition substring0 :: "nat \<Rightarrow> jsstring \<Rightarrow> jsstring" where
  "substring0 n s = take n s"


section \<open>The extractor (\<open>extractReviewData\<close>)\<close>

text \<open>
  The extractor reads a review container only through \<open>querySelector\<close>. An element is
  modelled by what it answers to each selector; a matched node by the two properties the
  code reads, \<open>textContent\<close> and \<open>className\<close>. The \<open>className\<close> of an HTML element is a
  string; that of an SVG element is an \<open>SVGAnimatedString\<close> object, which has no \<open>match\<close>
  method.
\<close>

datatype class_name = ClassString jsstring | SVGAnimatedString

record dom_node =
  textContent :: jsstring
  className :: class_name

type_synonym element = "string \<rightharpoonup> dom_node"

definition querySelector :: "element \<Rightarrow> string \<Rightarrow> dom_node option" where
  "querySelector el selector = el selector"

definition SELECTORS_reviewTitle :: string where
  "SELECTORS_reviewTitle = ''.review-top h3 span''"

definition SELECTORS_reviewRating :: string where
  "SELECTORS_reviewRating = ''.stars''"

definition SELECTORS_devResponse :: string where
  "SELECTORS_devResponse = ''.inner-container''"

definition sel_titleDiv :: string where
  \<open>sel_titleDiv = ''div[ng-bind*=".value.title"]''\<close>

definition sel_titleSpan :: string where
  \<open>sel_titleSpan = ''span[ng-bind*=".value.title"]''\<close>

definition sel_reviewDiv :: string where
  \<open>sel_reviewDiv = ''div[ng-bind*=".value.review"]''\<close>

definition sel_reviewBody :: string where
  "sel_reviewBody = ''.review-body''"

definition sel_metaSpan :: string where
  "sel_metaSpan = ''.review-meta span''"

text \<open>\<open>node?.textContent?.trim()\<close>: undefined (\<open>None\<close>) when the query found nothing.\<close>

definition trimmedText :: "dom_node option \<Rightarrow> jsstring option" where
  "trimmedText n = map_option (\<lambda>x. trim (textContent x)) n"

text \<open>\<open>a || b\<close> on an optional string: \<open>b\<close> when \<open>a\<close> is undefined or empty.\<close>

definition orElse :: "jsstring option \<Rightarrow> jsstring \<Rightarrow> jsstring" where
  "orElse a b = (case a of None \<Rightarrow> b | Some s \<Rightarrow> if s = [] then b else s)"

text \<open>
  \<open>className.match(/count-(\d)/)\<close>: the digit after the leftmost \<open>count-\<close> that is
  followed by a digit.
\<close>

definition isDigit :: "code_unit \<Rightarrow> bool" where
  "isDigit c = (0x30 \<le> c \<and> c \<le> 0x39)"

fun matchCount :: "jsstring \<Rightarrow> code_unit option" where
  "matchCount [] = None"
| "matchCount (c # cs) =
     (case stripPrefix (ascii ''count-'') (c # cs) of
        Some (d # rest) \<Rightarrow> if isDigit d then Some d else matchCount cs
      | _ \<Rightarrow> matchCount cs)"

definition parseIntDigit :: "code_unit \<Rightarrow> nat" where
  "parseIntDigit d = unat d - 0x30"

text \<open>
  \<open>ratingElement?.className?.match(...)\<close> and \<open>ratingMatch ? parseInt(ratingMatch[1]) : 0\<close>.
  Calling \<open>match\<close> on an \<open>SVGAnimatedString\<close> throws TypeError.
\<close>

definition ratingOf :: "dom_node option \<Rightarrow> js_error + nat" where
  "ratingOf ratingElement =
     (case ratingElement of
        None \<Rightarrow> Inr 0
      | Some n \<Rightarrow>
          (case className n of
             SVGAnimatedString \<Rightarrow> Inl TypeError
           | ClassString cls \<Rightarrow>
               (case matchCount cls of None \<Rightarrow> Inr 0 | Some d \<Rightarrow> Inr (parseIntDigit d))))"

text \<open>
  \<open>nicknameText.match(/by (.+?) \<endash>/)\<close>: at the leftmost position where it succeeds,
  \<open>by \<close>, then the shortest non-empty run of characters other than line terminators that is
  followed by a space and an en dash (U+2013). The result is the run.
\<close>

definition isLineTerminator :: "code_unit \<Rightarrow> bool" where
  "isLineTerminator c = (c = 0xA \<or> c = 0xD \<or> c = 0x2028 \<or> c = 0x2029)"

fun lazyRun :: "jsstring \<Rightarrow> jsstring \<Rightarrow> jsstring option" where
  "lazyRun acc [] = None"
| "lazyRun acc (c # cs) =
     (case stripPrefix [0x20, 0x2013] (c # cs) of
        Some rest \<Rightarrow> Some (rev acc)
      | None \<Rightarrow> if isLineTerminator c then None else lazyRun (c # acc) cs)"

fun matchNickname :: "jsstring \<Rightarrow> jsstring option" where
  "matchNickname [] = None"
| "matchNickname (c # cs) =
     (case stripPrefix (ascii ''by '') (c # cs) of
        Some (x # rest) \<Rightarrow>
          if isLineTerminator x then matchNickname cs
          else (case lazyRun [x] rest of Some g \<Rightarrow> Some g | None \<Rightarrow> matchNickname cs)
      | _ \<Rightarrow> matchNickname cs)"

text \<open>The id: \<open>btoa(encodeURIComponent(title + nickname + reviewContent)).substring(0, 16)\<close>.\<close>

definition deriveId :: "jsstring \<Rightarrow> jsstring \<Rightarrow> jsstring \<Rightarrow> js_error + jsstring" where
  "deriveId title nickname reviewContent =
     (case encodeURIComponent (title @ nickname @ reviewContent) of
        Inl e \<Rightarrow> Inl e
      | Inr enc \<Rightarrow> (case btoa enc of Inl e \<Rightarrow> Inl e | Inr b \<Rightarrow> Inr (substring0 16 b)))"

record review =
  review_id :: jsstring
  title :: jsstring
  rating :: nat
  content :: jsstring
  nickname :: jsstring
  hasResponse :: bool
  element :: element

text \<open>What \<open>debug\<close> writes to the console.\<close>

datatype log_entry =
    ExtractedReview jsstring nat jsstring jsstring bool
  | ErrorExtracting js_error
  | StartingScan
  | FoundElements nat
  | FoundReviews nat nat
  | HeaderNotFound
  | NewReviewsDetected
  | CountMismatch
  | StartingBatchAnalysis
  | UsingCachedAnalysis
  | BatchAnalysisSuccessful
  | BatchAnalysisFailed
  | ErrorInBatchAnalysis

text \<open>
  \<open>extractReviewData\<close>: the record and the console lines. The whole body is inside
  \<open>try\<close>; the \<open>catch\<close> logs and returns \<open>null\<close> (\<open>None\<close>).
\<close>

definition extractReviewData :: "element \<Rightarrow> review option \<times> log_entry list" where
  "extractReviewData el =
     (let title' = orElse (trimmedText (querySelector el SELECTORS_reviewTitle))
                     (orElse (trimmedText (querySelector el sel_titleDiv))
                       (orElse (trimmedText (querySelector el sel_titleSpan)) []))
      in case ratingOf (querySelector el SELECTORS_reviewRating) of
           Inl err \<Rightarrow> (None, [ErrorExtracting err])
         | Inr rating' \<Rightarrow>
            (let reviewContent = orElse (trimmedText (querySelector el sel_reviewDiv))
                                   (orElse (trimmedText (querySelector el sel_reviewBody)) []);
                 hasResponse' = (querySelector el SELECTORS_devResponse \<noteq> None);
                 nicknameText = orElse (map_option textContent (querySelector el sel_metaSpan)) [];
                 nickname' = (case matchNickname nicknameText of Some g \<Rightarrow> g | None \<Rightarrow> []);
                 logged = ExtractedReview title' rating' (substring0 50 reviewContent) nickname'
                            hasResponse'
             in case deriveId title' nickname' reviewContent of
                  Inl err \<Rightarrow> (None, [logged, ErrorExtracting err])
                | Inr i \<Rightarrow>
                    (Some \<lparr>review_id = i, title = title', rating = rating',
                           content = reviewContent, nickname = nickname',
                           hasResponse = hasResponse', element = el\<rparr>,
                     [logged])))"


section \<open>The scanner (\<open>scanReviews\<close>) and the counter widget\<close>

text \<open>
  \<open>state.reviews\<close> is a JavaScript \<open>Map\<close>: entries in insertion order, at most one per key.
  \<open>Map.prototype.set\<close> replaces the value of a key that is present, in place, and appends
  an entry otherwise; \<open>size\<close> is the number of entries.
\<close>

fun mapSet :: "'k \<Rightarrow> 'v \<Rightarrow> ('k \<times> 'v) list \<Rightarrow> ('k \<times> 'v) list" where
  "mapSet k v [] = [(k, v)]"
| "mapSet k v ((k', v') # m) = (if k' = k then (k, v) # m else (k', v') # mapSet k v m)"

definition mapSize :: "('k \<times> 'v) list \<Rightarrow> nat" where
  "mapSize m = length m"

text \<open>The module-level \<open>state\<close> (its \<open>observer\<close> handle is not read by the functions below).\<close>

record state =
  reviews :: "(jsstring \<times> review) list"
  totalReviews :: nat
  unansweredReviews :: nat
  isProcessing :: bool

text \<open>
  The document tree, for the code that edits it. An element has an id, a class list and
  child nodes; node identity is the position in the tree.
\<close>

datatype dom_tree = Element string "string list" "dom_tree list" | TextNode jsstring

text \<open>
  The document as the content script reads it: the answer to
  \<open>querySelectorAll('.review-container')\<close>, in document order, and the tree.
\<close>

record document =
  reviewContainers :: "element list"
  nodes :: "dom_tree list"

definition querySelectorAll_reviewContainer :: "document \<Rightarrow> element list" where
  "querySelectorAll_reviewContainer doc = reviewContainers doc"

text \<open>\<open>String(n)\<close> and \<open>`${n}`\<close> for a count: its decimal digits.\<close>

fun decimal :: "nat \<Rightarrow> jsstring" where
  "decimal n =
     (if n < 10 then [0x30 + of_nat n] else decimal (n div 10) @ [0x30 + of_nat (n mod 10)])"

declare decimal.simps [simp del]

text \<open>Reading a decimal numeral back, to say what \<open>decimal\<close> writes.\<close>

definition decimalValue :: "jsstring \<Rightarrow> nat" where
  "decimalValue s = foldl (\<lambda>a c. 10 * a + (unat c - 0x30)) 0 s"

text \<open>
  \<open>document.getElementById(i)\<close> is the first element with id \<open>i\<close> in tree order;
  \<open>removeFirstById i\<close> is the forest after \<open>getElementById(i).remove()\<close>, and \<open>None\<close> when
  no element has the id.
\<close>

fun removeFirstById :: "string \<Rightarrow> dom_tree list \<Rightarrow> dom_tree list option" where
  "removeFirstById i [] = None"
| "removeFirstById i (TextNode t # rest) =
     map_option (Cons (TextNode t)) (removeFirstById i rest)"
| "removeFirstById i (Element j cls kids # rest) =
     (if j = i then Some rest
      else case removeFirstById i kids of
             Some kids' \<Rightarrow> Some (Element j cls kids' # rest)
           | None \<Rightarrow> map_option (Cons (Element j cls kids)) (removeFirstById i rest))"

text \<open>The elements with id \<open>i\<close>, in tree order.\<close>

fun elementsById :: "string \<Rightarrow> dom_tree list \<Rightarrow> dom_tree list" where
  "elementsById i [] = []"
| "elementsById i (TextNode t # rest) = elementsById i rest"
| "elementsById i (Element j cls kids # rest) =
     (if j = i then [Element j cls kids] else []) @ elementsById i kids @ elementsById i rest"

text \<open>
  \<open>el.querySelector('.c')\<close> on the children \<open>kids\<close> of \<open>el\<close>: the path (child indices from
  \<open>el\<close> down) of the first descendant with class \<open>c\<close>, in tree order.
\<close>

fun nextSibling :: "nat list \<Rightarrow> nat list" where
  "nextSibling [] = []"
| "nextSibling (k # p) = Suc k # p"

fun querySelectorClass :: "string \<Rightarrow> dom_tree list \<Rightarrow> nat list option" where
  "querySelectorClass c [] = None"
| "querySelectorClass c (TextNode t # rest) = map_option nextSibling (querySelectorClass c rest)"
| "querySelectorClass c (Element j cls kids # rest) =
     (if c \<in> set cls then Some [0]
      else case querySelectorClass c kids of
             Some p \<Rightarrow> Some (0 # p)
           | None \<Rightarrow> map_option nextSibling (querySelectorClass c rest))"

text \<open>
  The widget: \<open>counterDiv\<close> after \<open>id\<close>, \<open>className\<close> and \<open>innerHTML\<close> are set (the
  whitespace-only text nodes between the tags of the template are left out).
\<close>

definition counterDiv :: "nat \<Rightarrow> nat \<Rightarrow> dom_tree" where
  "counterDiv total' unanswered' =
     Element ''reviewllama-counter'' [''reviewllama-counter'']
       [Element [] [''reviewllama-stats'']
          [Element [] [''reviewllama-stat'']
             [Element [] [''reviewllama-label''] [TextNode (ascii ''Total:'')],
              Element [] [''reviewllama-value''] [TextNode (decimal total')]],
           Element [] [''reviewllama-stat'', ''reviewllama-unanswered'']
             [Element [] [''reviewllama-label''] [TextNode (ascii ''Unanswered:'')],
              Element [] [''reviewllama-value''] [TextNode (decimal unanswered')]]]]"

text \<open>
  The end of \<open>injectReviewCounter\<close>, on the children of the header:
  \<open>firstMenu = reviewsHeader.querySelector('.hasPopOver')\<close>, then
  \<open>insertBefore(counterDiv, firstMenu)\<close> or \<open>appendChild(counterDiv)\<close>. \<open>insertBefore\<close> throws
  NotFoundError when \<open>firstMenu\<close> is not a child of the header.
\<close>

definition placeCounter :: "dom_tree \<Rightarrow> dom_tree list \<Rightarrow> js_error + dom_tree list" where
  "placeCounter w kids =
     (case querySelectorClass ''hasPopOver'' kids of
        None \<Rightarrow> Inr (kids @ [w])
      | Some [k] \<Rightarrow> Inr (take k kids @ w # drop k kids)
      | Some p \<Rightarrow> Inl NotFoundError)"

text \<open>
  \<open>atFirstById i f\<close> runs \<open>f\<close> on the children of the first element with id \<open>i\<close> (the
  element \<open>document.querySelector('#i')\<close> returns): \<open>None\<close> when there is none, the exception
  of \<open>f\<close>, or the new forest.
\<close>

fun atFirstById ::
  "string \<Rightarrow> (dom_tree list \<Rightarrow> js_error + dom_tree list) \<Rightarrow> dom_tree list \<Rightarrow>
   (js_error + dom_tree list) option" where
  "atFirstById i f [] = None"
| "atFirstById i f (TextNode t # rest) =
     map_option (map_sum id (Cons (TextNode t))) (atFirstById i f rest)"
| "atFirstById i f (Element j cls kids # rest) =
     (if j = i then Some (map_sum id (\<lambda>kids'. Element j cls kids' # rest) (f kids))
      else case atFirstById i f kids of
             Some r \<Rightarrow> Some (map_sum id (\<lambda>kids'. Element j cls kids' # rest) r)
           | None \<Rightarrow> map_option (map_sum id (Cons (Element j cls kids))) (atFirstById i f rest))"

text \<open>
  \<open>injectReviewCounter\<close>: the tree it leaves, the console lines, and the exception it
  propagates, if any (the function has no \<open>try\<close>).
\<close>

definition injectReviewCounter ::
  "state \<Rightarrow> dom_tree list \<Rightarrow> dom_tree list \<times> log_entry list \<times> js_error option" where
  "injectReviewCounter st ns =
     (let ns1 = (case removeFirstById ''reviewllama-counter'' ns of
                   Some ns' \<Rightarrow> ns' | None \<Rightarrow> ns)
      in case atFirstById ''reviews-header''
                (placeCounter (counterDiv (totalReviews st) (unansweredReviews st))) ns1 of
           None \<Rightarrow> (ns1, [HeaderNotFound], None)
         | Some (Inl err) \<Rightarrow> (ns1, [], Some err)
         | Some (Inr ns2) \<Rightarrow> (ns2, [], None))"

text \<open>What the content script does to the outside, in order.\<close>

datatype effect =
    Debug log_entry
  | SendMessage_UPDATE_BADGE nat nat
  | Call_analyzeAllReviews

text \<open>The body of the \<open>forEach\<close> in \<open>scanReviews\<close>, for one element.\<close>

definition scanElement :: "element \<Rightarrow> state \<times> log_entry list \<Rightarrow> state \<times> log_entry list" where
  "scanElement el acc =
     (case extractReviewData el of
        (None, lg) \<Rightarrow> (fst acc, snd acc @ lg)
      | (Some reviewData, lg) \<Rightarrow>
          ((fst acc)\<lparr>reviews := mapSet (review_id reviewData) reviewData (reviews (fst acc)),
                     totalReviews := totalReviews (fst acc) + 1,
                     unansweredReviews :=
                       (if \<not> hasResponse reviewData then unansweredReviews (fst acc) + 1
                        else unansweredReviews (fst acc))\<rparr>,
           snd acc @ lg))"

text \<open>The state after \<open>clear()\<close>, the two resets and the \<open>forEach\<close>, with the console lines.\<close>

definition scanLoop :: "element list \<Rightarrow> state \<Rightarrow> state \<times> log_entry list" where
  "scanLoop reviewElements st =
     fold scanElement reviewElements
       (st\<lparr>reviews := [], totalReviews := 0, unansweredReviews := 0\<rparr>, [])"

text \<open>
  To state what a scan counts: the records of the containers whose extraction succeeds,
  in document order, and the number of snapshot entries without a reply.
\<close>

fun extracted :: "element list \<Rightarrow> review list" where
  "extracted [] = []"
| "extracted (el # els) =
     (case fst (extractReviewData el) of
        None \<Rightarrow> extracted els
      | Some r \<Rightarrow> r # extracted els)"

definition addReview :: "review \<Rightarrow> state \<Rightarrow> state" where
  "addReview r st =
     st\<lparr>reviews := mapSet (review_id r) r (reviews st),
        totalReviews := totalReviews st + 1,
        unansweredReviews :=
          (if \<not> hasResponse r then unansweredReviews st + 1 else unansweredReviews st)\<rparr>"

definition unansweredIn :: "(jsstring \<times> review) list \<Rightarrow> nat" where
  "unansweredIn m = length (filter (\<lambda>kv. \<not> hasResponse (snd kv)) m)"

record scan_result =
  state_after :: state
  document_after :: document
  effects :: "effect list"
  thrown :: "js_error option"

text \<open>
  \<open>scanReviews\<close>, with \<open>updateUI\<close> inlined: the badge message, the counter injection, and
  the call of \<open>analyzeAllReviews\<close> when there are reviews. An exception of the injection
  propagates: the later steps do not run, the state keeps what the loop wrote.
\<close>

definition scanReviews :: "document \<Rightarrow> state \<Rightarrow> scan_result" where
  "scanReviews doc st =
     (let reviewElements = querySelectorAll_reviewContainer doc;
          looped = scanLoop reviewElements st;
          st' = fst looped;
          first = map Debug ([StartingScan, FoundElements (length reviewElements)] @ snd looped @
                     [FoundReviews (totalReviews st') (unansweredReviews st')]) @
                   [SendMessage_UPDATE_BADGE (totalReviews st') (unansweredReviews st')];
          injected = injectReviewCounter st' (nodes doc);
          doc' = doc\<lparr>nodes := fst injected\<rparr>;
          efs = first @ map Debug (fst (snd injected))
      in case snd (snd injected) of
           Some err \<Rightarrow>
             \<lparr>state_after = st', document_after = doc', effects = efs, thrown = Some err\<rparr>
         | None \<Rightarrow>
             \<lparr>state_after = st', document_after = doc',
              effects = efs @ (if 0 < totalReviews st' then [Call_analyzeAllReviews] else []),
              thrown = None\<rparr>)"


section \<open>The mutation observer (\<open>setupObserver\<close>)\<close>

text \<open>
  A node of \<open>mutation.addedNodes\<close>, by what the callback asks of it: its \<open>nodeType\<close>,
  whether it matches the container selector, and whether it contains a match.
\<close>

record added_node =
  nodeType :: nat
  matchesContainer :: bool
  containsContainer :: bool

record mutation_record =
  addedNodes :: "added_node list"

definition hasNewReviews :: "mutation_record list \<Rightarrow> bool" where
  "hasNewReviews mutations =
     list_ex (\<lambda>mutation.
       list_ex (\<lambda>node. nodeType node = 1 \<and> (matchesContainer node \<or> containsContainer node))
         (addedNodes mutation)) mutations"

text \<open>
  \<open>setupObserver\<close> observes, with \<open>childList\<close> and \<open>subtree\<close>, the first of
  \<open>#infinite-scroll\<close>, \<open>#reviews-container\<close> and \<open>document.body\<close> that exists. The body is
  taken to hold every node of the tree; an element target is followed by its id.
\<close>

datatype observer_target = TargetId string | TargetBody


text \<open>The path (child indices from the root down) of the first element with id \<open>i\<close>.\<close>

fun pathById :: "string \<Rightarrow> dom_tree list \<Rightarrow> nat list option" where
  "pathById i [] = None"
| "pathById i (TextNode t # rest) = map_option nextSibling (pathById i rest)"
| "pathById i (Element j cls kids # rest) =
     (if j = i then Some [0]
      else case pathById i kids of
             Some p \<Rightarrow> Some (0 # p)
           | None \<Rightarrow> map_option nextSibling (pathById i rest))"

text \<open>
  A change of the children of the node at path \<open>p\<close> is reported to the observer when that
  node is the target or lies below it.
\<close>

definition observes :: "observer_target \<Rightarrow> dom_tree list \<Rightarrow> nat list option \<Rightarrow> bool" where
  "observes tg ns p =
     (case p of
        None \<Rightarrow> False
      | Some p' \<Rightarrow>
          (case tg of
             TargetBody \<Rightarrow> True
           | TargetId t \<Rightarrow>
               (case pathById t ns of None \<Rightarrow> False | Some q \<Rightarrow> prefix q p')))"

text \<open>
  The mutation records \<open>injectReviewCounter\<close> causes, as far as the observer is told:
  one for \<open>existingCounter.remove()\<close>, a change of the children of the old widget's
  parent, and one for the insertion of the new widget, a change of the children of the
  header. The new widget is an element that neither is nor contains a review container.
\<close>

definition ownMutations :: "observer_target \<Rightarrow> state \<Rightarrow> dom_tree list \<Rightarrow> mutation_record list" where
  "ownMutations tg st ns =
     (let removed = removeFirstById ''reviewllama-counter'' ns;
          ns1 = (case removed of Some ns' \<Rightarrow> ns' | None \<Rightarrow> ns)
      in (if removed \<noteq> None \<and>
             observes tg ns (map_option butlast (pathById ''reviewllama-counter'' ns))
          then [\<lparr>addedNodes = []\<rparr>] else []) @
         (case atFirstById ''reviews-header''
                 (placeCounter (counterDiv (totalReviews st) (unansweredReviews st))) ns1 of
            Some (Inr ns2) \<Rightarrow>
              if observes tg ns1 (pathById ''reviews-header'' ns1)
              then [\<lparr>addedNodes =
                      [\<lparr>nodeType = 1, matchesContainer = False, containsContainer = False\<rparr>]\<rparr>]
              else []
          | _ \<Rightarrow> []))"

text \<open>
  The page as the event loop sees it: the script's state, the document, the observer's
  target, the pending \<open>setTimeout(..., 500)\<close> callbacks of the observer (oldest first,
  each with the \<open>mutations\<close> its closure holds), and everything the script has done so
  far.
\<close>

record page =
  page_state :: state
  page_document :: document
  target :: observer_target
  timeouts :: "mutation_record list list"
  trace :: "effect list"

text \<open>The observer's callback: \<open>if (state.isProcessing) return;\<close>, else set the flag and the timer.\<close>

definition observerCallback :: "mutation_record list \<Rightarrow> page \<Rightarrow> page" where
  "observerCallback mutations pg =
     (if isProcessing (page_state pg) then pg
      else pg\<lparr>page_state := (page_state pg)\<lparr>isProcessing := True\<rparr>,
              timeouts := timeouts pg @ [mutations]\<rparr>)"

text \<open>
  A task that logs \<open>line\<close> and calls \<open>scanReviews()\<close> in state \<open>st\<close>. When the task
  is over, the observer is called once with the records of the script's own changes to
  the tree, if any of them is reported.
\<close>

definition scanTask :: "log_entry \<Rightarrow> state \<Rightarrow> page \<Rightarrow> page" where
  "scanTask line st pg =
     (let r = scanReviews (page_document pg) st;
          own = ownMutations (target pg) (state_after r) (nodes (page_document pg));
          pg' = pg\<lparr>page_state := state_after r, page_document := document_after r,
                   trace := trace pg @ [Debug line] @ effects r\<rparr>
      in if own = [] then pg' else observerCallback own pg')"

text \<open>The timer's callback, 500 ms later, for the \<open>mutations\<close> of the call that set it.\<close>

definition timeoutCallback :: "mutation_record list \<Rightarrow> page \<Rightarrow> page" where
  "timeoutCallback mutations pg =
     (let st = (page_state pg)\<lparr>isProcessing := False\<rparr>
      in if hasNewReviews mutations then scanTask NewReviewsDetected st pg
         else pg\<lparr>page_state := st\<rparr>)"

text \<open>The callback of \<open>setInterval(..., 5000)\<close> in \<open>initialize\<close>.\<close>

definition pollCallback :: "page \<Rightarrow> page" where
  "pollCallback pg =
     (let currentCount = length (querySelectorAll_reviewContainer (page_document pg))
      in if currentCount \<noteq> totalReviews (page_state pg)
         then scanTask CountMismatch (page_state pg) pg
         else pg)"

text \<open>
  The events of the single-threaded loop: the document changes and the observer is
  called with the mutation records (a change by the host page, or by the script in a
  later task, such as the labels it adds when an analysis arrives); the oldest pending
  timer of the observer fires; the 5 s poll fires. All timers of the observer have the
  same delay, so they fire in the order they were set.
\<close>

datatype event = DomMutation document "mutation_record list" | TimerFires | PollFires

fun step :: "event \<Rightarrow> page \<Rightarrow> page" where
  "step (DomMutation doc mutations) pg = observerCallback mutations (pg\<lparr>page_document := doc\<rparr>)"
| "step TimerFires pg =
     (case timeouts pg of
        [] \<Rightarrow> pg
      | mutations # later \<Rightarrow> timeoutCallback mutations (pg\<lparr>timeouts := later\<rparr>))"
| "step PollFires pg = pollCallback pg"

definition run :: "event list \<Rightarrow> page \<Rightarrow> page" where
  "run evs pg = fold step evs pg"






section \<open>The analysis cache (\<open>analyzeAllReviews\<close>)\<close>









section \<open>The knowledge-base matcher (\<open>matchKnowledgeBase\<close>)\<close>

record 'p trouble =
  trouble_id :: jsstring
  trouble_keywords :: "jsstring list"
  payload :: 'p

record 'p kb_match =
  match_id :: jsstring
  score :: nat
  item :: "'p trouble"

text \<open>\<open>s.includes(t)\<close>: \<open>t\<close> occurs in \<open>s\<close> at some position.\<close>

fun str_includes :: "jsstring \<Rightarrow> jsstring \<Rightarrow> bool" where
  "str_includes [] t = (t = [])"
| "str_includes (c # cs) t = (stripPrefix t (c # cs) \<noteq> None \<or> str_includes cs t)"

text \<open>
  \<open>Array.prototype.sort(cmp)\<close> is a stable sort: \<open>a\<close> stays before \<open>b\<close> unless
  \<open>cmp(a, b) > 0\<close>. It is modelled by insertion from the right.
\<close>

fun insertSorted :: "('a \<Rightarrow> 'a \<Rightarrow> int) \<Rightarrow> 'a \<Rightarrow> 'a list \<Rightarrow> 'a list" where
  "insertSorted cmp x [] = [x]"
| "insertSorted cmp x (y # ys) =
     (if cmp x y \<le> 0 then x # y # ys else y # insertSorted cmp x ys)"

definition arraySort :: "('a \<Rightarrow> 'a \<Rightarrow> int) \<Rightarrow> 'a list \<Rightarrow> 'a list" where
  "arraySort cmp xs = foldr (insertSorted cmp) xs []"

text \<open>The inner \<open>forEach\<close>: \<open>score++\<close> for each keyword found in the review text.\<close>

definition scoreItem :: "(jsstring \<Rightarrow> jsstring) \<Rightarrow> jsstring \<Rightarrow> 'p trouble \<Rightarrow> nat" where
  "scoreItem toLowerCase reviewText it =
     fold (\<lambda>keyword sc. if str_includes reviewText (toLowerCase keyword) then sc + 1 else sc)
       (trouble_keywords it) 0"

text \<open>The outer \<open>forEach\<close>: \<open>scores.push(...)\<close> for an item with a positive score.\<close>

definition pushScored ::
  "(jsstring \<Rightarrow> jsstring) \<Rightarrow> jsstring \<Rightarrow> 'p trouble \<Rightarrow> 'p kb_match list \<Rightarrow> 'p kb_match list" where
  "pushScored toLowerCase reviewText it scores =
     (let sc = scoreItem toLowerCase reviewText it
      in if 0 < sc then scores @ [\<lparr>match_id = trouble_id it, score = sc, item = it\<rparr>]
         else scores)"

text \<open>
  \<open>matchKnowledgeBase\<close>. The built-in \<open>String.prototype.toLowerCase\<close> (the Unicode lower
  case mapping) is a parameter. The knowledge base is \<open>None\<close> when loading
  \<open>knowledgebase.json\<close> fails: the \<open>catch\<close> resolves to the empty list.
\<close>

definition matchKnowledgeBase ::
  "(jsstring \<Rightarrow> jsstring) \<Rightarrow> 'p trouble list option \<Rightarrow> review \<Rightarrow> 'p kb_match list" where
  "matchKnowledgeBase toLowerCase kb rv =
     (case kb of
        None \<Rightarrow> []
      | Some troubles \<Rightarrow>
          (let reviewText = toLowerCase (title rv @ ascii '' '' @ content rv);
               scores = fold (pushScored toLowerCase reviewText) troubles []
           in take 3 (arraySort (\<lambda>a b. int (score b) - int (score a)) scores)))"

text \<open>Lower case on ASCII, where \<open>toLowerCase\<close> maps \<open>A-Z\<close> to \<open>a-z\<close> and nothing else.\<close>

definition asciiLower :: "jsstring \<Rightarrow> jsstring" where
  "asciiLower s = map (\<lambda>c. if 0x41 \<le> c \<and> c \<le> 0x5A then c + 0x20 else c) s"

definition isAscii :: "jsstring \<Rightarrow> bool" where
  "isAscii s = list_all (\<lambda>c. c < 0x80) s"

text \<open>
  The matcher as the specification words it: the score of an entry is the number of its
  keywords that occur in the text, both in lower case.
\<close>

definition keywordOverlap :: "(jsstring \<Rightarrow> jsstring) \<Rightarrow> jsstring \<Rightarrow> 'p trouble \<Rightarrow> nat" where
  "keywordOverlap toLowerCase text' it =
     length (filter (\<lambda>k. sublist (toLowerCase k) (toLowerCase text')) (trouble_keywords it))"

definition candidates ::
  "(jsstring \<Rightarrow> jsstring) \<Rightarrow> jsstring \<Rightarrow> 'p trouble list \<Rightarrow> 'p kb_match list" where
  "candidates toLowerCase text' troubles =
     map (\<lambda>it. \<lparr>match_id = trouble_id it, score = keywordOverlap toLowerCase text' it, item = it\<rparr>)
       (filter (\<lambda>it. 0 < keywordOverlap toLowerCase text' it) troubles)"


section \<open>The badge (\<open>handleBadgeUpdate\<close>, background worker)\<close>

record badge_data =
  data_total :: int
  data_unanswered :: int

datatype chrome_call =
    SetBadgeText jsstring "nat option"
  | SetBadgeBackgroundColor jsstring "nat option"

text \<open>
  \<open>handleBadgeUpdate(data, tabId)\<close>: the calls on \<open>chrome.action\<close>, in order. \<open>tabId\<close>
  is \<open>sender.tab?.id\<close>, possibly undefined.
\<close>

definition handleBadgeUpdate :: "badge_data \<Rightarrow> nat option \<Rightarrow> chrome_call list" where
  "handleBadgeUpdate d tabId =
     (let unanswered' = data_unanswered d
      in if 0 < unanswered' then
           [SetBadgeText (decimal (nat unanswered')) tabId,
            SetBadgeBackgroundColor (ascii ''#FF3B30'') tabId]
         else [SetBadgeText [] tabId])"

definition badgeTexts :: "chrome_call list \<Rightarrow> jsstring list" where
  "badgeTexts cs = concat (map (\<lambda>c. case c of SetBadgeText t tab \<Rightarrow> [t] | _ \<Rightarrow> []) cs)"


section \<open>Example inputs\<close>

text \<open>The state the script starts with.\<close>

definition emptyState :: state where
  "emptyState = \<lparr>reviews = [], totalReviews = 0, unansweredReviews = 0, isProcessing = False\<rparr>"

text \<open>A container with a title and five stars, no reply.\<close>

definition exampleNice :: element where
  "exampleNice =
     [SELECTORS_reviewTitle \<mapsto> \<lparr>textContent = ascii ''Nice'', className = ClassString []\<rparr>,
      SELECTORS_reviewRating \<mapsto>
        \<lparr>textContent = [], className = ClassString (ascii ''stars count-5'')\<rparr>]"

text \<open>The same title in the modal's markup, no stars, with a developer reply.\<close>

definition exampleNiceAnswered :: element where
  "exampleNiceAnswered =
     [sel_titleDiv \<mapsto> \<lparr>textContent = ascii '' Nice '', className = ClassString []\<rparr>,
      SELECTORS_devResponse \<mapsto> \<lparr>textContent = ascii ''Thanks'', className = ClassString []\<rparr>]"

text \<open>A container whose rating element has the class \<open>stars count-7\<close>.\<close>

definition exampleSeven :: element where
  "exampleSeven =
     [SELECTORS_reviewRating \<mapsto>
        \<lparr>textContent = [], className = ClassString (ascii ''stars count-7'')\<rparr>]"

text \<open>
  Two reviews with the title \<open>Great app!\<close>, by different users, with different texts and
  ratings; the second has a developer reply.
\<close>

definition exampleAlice :: element where
  "exampleAlice =
     [SELECTORS_reviewTitle \<mapsto> \<lparr>textContent = ascii ''Great app!'', className = ClassString []\<rparr>,
      SELECTORS_reviewRating \<mapsto>
        \<lparr>textContent = [], className = ClassString (ascii ''stars count-5'')\<rparr>,
      sel_reviewDiv \<mapsto> \<lparr>textContent = ascii ''Love it'', className = ClassString []\<rparr>,
      sel_metaSpan \<mapsto>
        \<lparr>textContent = ascii ''by alice '' @ [0x2013] @ ascii '' Jan 1, 2024'',
         className = ClassString []\<rparr>]"

definition exampleBob :: element where
  "exampleBob =
     [SELECTORS_reviewTitle \<mapsto> \<lparr>textContent = ascii ''Great app!'', className = ClassString []\<rparr>,
      SELECTORS_reviewRating \<mapsto>
        \<lparr>textContent = [], className = ClassString (ascii ''stars count-1'')\<rparr>,
      sel_reviewDiv \<mapsto>
        \<lparr>textContent = ascii ''Crashes on launch'', className = ClassString []\<rparr>,
      sel_metaSpan \<mapsto>
        \<lparr>textContent = ascii ''by bob '' @ [0x2013] @ ascii '' Feb 2, 2024'',
         className = ClassString []\<rparr>,
      SELECTORS_devResponse \<mapsto> \<lparr>textContent = ascii ''Sorry!'', className = ClassString []\<rparr>]"


definition exampleLoneSurrogate :: element where
  "exampleLoneSurrogate =
     [SELECTORS_reviewTitle \<mapsto> \<lparr>textContent = [0xD83D], className = ClassString []\<rparr>]"

text \<open>Documents: two containers with the same texts; three containers, the second failing.\<close>

definition exampleTwins :: document where
  "exampleTwins = \<lparr>reviewContainers = [exampleNice, exampleNiceAnswered], nodes = []\<rparr>"

definition exampleDistinct :: document where
  "exampleDistinct = \<lparr>reviewContainers = [exampleNice, exampleSeven], nodes = []\<rparr>"


text \<open>
  A knowledge base with a billing entry and a crash entry, and a review whose title and
  content combine to \<open>I can't find my invoice\<close>.
\<close>

definition exampleBilling :: "unit trouble" where
  "exampleBilling =
     \<lparr>trouble_id = ascii ''billing'',
      trouble_keywords = [ascii ''invoice'', ascii ''payment''], payload = ()\<rparr>"

definition exampleCrash :: "unit trouble" where
  "exampleCrash =
     \<lparr>trouble_id = ascii ''crash'', trouble_keywords = [ascii ''crash'', ascii ''freeze''],
      payload = ()\<rparr>"

definition exampleInvoiceReview :: review where
  "exampleInvoiceReview =
     \<lparr>review_id = ascii ''SSUyMGNhbid0JTIw'', title = ascii ''I can'' @ [0x27] @ ascii ''t find'',
      rating = 2, content = ascii ''my invoice'', nickname = [], hasResponse = False,
      element = Map.empty\<rparr>"

text \<open>
  Trees: a header with a dropdown menu as its child; a header and two elements that
  already have the widget's id; a header whose dropdown menu is wrapped in a \<open>div\<close>.
\<close>

definition exampleHeader :: "dom_tree list" where
  "exampleHeader =
     [Element ''reviews-header'' []
        [Element ''total-reviews'' [] [TextNode (ascii ''2 Reviews'')],
         Element [] [''hasPopOver''] [TextNode (ascii ''Sort'')]]]"

definition exampleDuplicates :: "dom_tree list" where
  "exampleDuplicates =
     [Element ''reviews-header'' [] [],
      Element ''reviewllama-counter'' [] [],
      Element ''reviewllama-counter'' [] []]"

definition exampleNestedMenu :: "dom_tree list" where
  "exampleNestedMenu =
     [Element ''reviews-header'' []
        [Element [] [''menus''] [Element [] [''hasPopOver''] [TextNode (ascii ''Sort'')]]]]"

definition exampleCounts :: state where
  "exampleCounts =
     \<lparr>reviews = [], totalReviews = 12, unansweredReviews = 3, isProcessing = False\<rparr>"










section \<open>Properties of the built-ins\<close>

lemma decimal_small: "n < 10 \<Longrightarrow> decimal n = [0x30 + of_nat n]"
  by (subst decimal.simps) simp

lemma digit_unat: "k < 10 \<Longrightarrow> unat (0x30 + of_nat k :: 16 word) - 0x30 = k"
proof -
  assume k: "k < 10"
  have "unat (0x30 + of_nat k :: 16 word) = 0x30 + k"
    using k by (simp add: unat_word_ariths unat_of_nat)
  then show ?thesis by simp
qed

lemma digit_isDigit: "k < 10 \<Longrightarrow> isDigit (0x30 + of_nat k)"
proof -
  assume k: "k < 10"
  have "unat (0x30 + of_nat k :: 16 word) = 0x30 + k"
    using k by (simp add: unat_word_ariths unat_of_nat)
  then show ?thesis
    using k by (simp add: isDigit_def word_le_nat_alt)
qed

lemma decimalValue_decimal: "decimalValue (decimal n) = n"
proof (induction n rule: decimal.induct)
  case (1 n)
  show ?case
  proof (cases "n < 10")
    case True
    then show ?thesis
      by (simp add: decimal_small decimalValue_def digit_unat)
  next
    case False
    have "decimalValue (decimal n) = 10 * decimalValue (decimal (n div 10)) + n mod 10"
      using False by (subst decimal.simps) (simp add: decimalValue_def digit_unat)
    with 1 False show ?thesis by simp
  qed
qed

lemma decimal_digits: "list_all isDigit (decimal n)"
proof (induction n rule: decimal.induct)
  case (1 n)
  show ?case
  proof (cases "n < 10")
    case True
    then show ?thesis by (simp add: decimal_small digit_isDigit)
  next
    case False
    then have "decimal n = decimal (n div 10) @ [0x30 + of_nat (n mod 10)]"
      by (subst decimal.simps) simp
    with 1 False show ?thesis by (simp add: digit_isDigit)
  qed
qed


section \<open>The badge shows the unanswered count\<close>

text \<open>
  C10. For a badge update with unanswered count \<open>u\<close>: when \<open>u > 0\<close> the badge text of the
  tab is set to the decimal numeral of \<open>u\<close> (digits only, reading back as \<open>u\<close>) and the
  background to the red \<open>#FF3B30\<close>; when \<open>u = 0\<close> the text is cleared to the empty string;
  and the calls do not depend on the total count.
\<close>

theorem handleBadgeUpdate_shows_unanswered:
  "(0 < data_unanswered d \<longrightarrow>
      handleBadgeUpdate d tabId =
        [SetBadgeText (decimal (nat (data_unanswered d))) tabId,
         SetBadgeBackgroundColor (ascii ''#FF3B30'') tabId] \<and>
      decimalValue (decimal (nat (data_unanswered d))) = nat (data_unanswered d) \<and>
      list_all isDigit (decimal (nat (data_unanswered d)))) \<and>
   (data_unanswered d = 0 \<longrightarrow> handleBadgeUpdate d tabId = [SetBadgeText [] tabId]) \<and>
   handleBadgeUpdate (d\<lparr>data_total := t\<rparr>) tabId = handleBadgeUpdate d tabId"
  by (simp add: handleBadgeUpdate_def Let_def decimalValue_decimal decimal_digits)

theorem handleBadgeUpdate_shows_unanswered_witness:
  "handleBadgeUpdate \<lparr>data_total = 12, data_unanswered = 3\<rparr> (Some 7) =
     [SetBadgeText (ascii ''3'') (Some 7), SetBadgeBackgroundColor (ascii ''#FF3B30'') (Some 7)] \<and>
   handleBadgeUpdate \<lparr>data_total = 12, data_unanswered = 0\<rparr> (Some 7) = [SetBadgeText [] (Some 7)]"
  using handleBadgeUpdate_shows_unanswered [of "\<lparr>data_total = 12, data_unanswered = 3\<rparr>" "Some 7"]
    handleBadgeUpdate_shows_unanswered [of "\<lparr>data_total = 12, data_unanswered = 0\<rparr>" "Some 7"]
  by (simp add: decimal_small ascii_def)


section \<open>The extractor: ids and ratings\<close>

lemmas eval_defs = extractReviewData_def Let_def querySelector_def SELECTORS_reviewTitle_def
  SELECTORS_reviewRating_def SELECTORS_devResponse_def sel_titleDiv_def sel_titleSpan_def
  sel_reviewDiv_def sel_reviewBody_def sel_metaSpan_def trimmedText_def orElse_def trim_def
  isWhiteSpace_def ratingOf_def ascii_def isDigit_def parseIntDigit_def deriveId_def
  uriUnreserved_def isLowSurrogate_def isHighSurrogate_def percentEncode_def percentByte_def
  utf8_def hexDigit_def btoa_def b64Char_def substring0_def isLineTerminator_def surrogatePair_def

lemma extract_Some:
  assumes "fst (extractReviewData el) = Some r"
  shows "ratingOf (querySelector el SELECTORS_reviewRating) = Inr (rating r)"
    and "deriveId (title r) (nickname r) (content r) = Inr (review_id r)"
    and "element r = el"
    and "hasResponse r = (querySelector el SELECTORS_devResponse \<noteq> None)"
  using assms by (auto simp: extractReviewData_def Let_def split: sum.splits)

lemma exampleNice_extract:
  "fst (extractReviewData exampleNice) =
     Some \<lparr>review_id = ascii ''TmljZQ=='', title = ascii ''Nice'', rating = 5, content = [],
           nickname = [], hasResponse = False, element = exampleNice\<rparr>"
  by (simp add: exampleNice_def eval_defs)

lemma exampleNiceAnswered_extract:
  "fst (extractReviewData exampleNiceAnswered) =
     Some \<lparr>review_id = ascii ''TmljZQ=='', title = ascii ''Nice'', rating = 0, content = [],
           nickname = [], hasResponse = True, element = exampleNiceAnswered\<rparr>"
  by (simp add: exampleNiceAnswered_def eval_defs)

lemma exampleSeven_extract:
  "fst (extractReviewData exampleSeven) =
     Some \<lparr>review_id = [], title = [], rating = 7, content = [],
           nickname = [], hasResponse = False, element = exampleSeven\<rparr>"
  by (simp add: exampleSeven_def eval_defs)

text \<open>
  C7. The id of an extracted record is \<open>deriveId\<close> of its title, nickname and content,
  and of nothing else: two records, from any two containers (scraped at different times,
  with different ratings, replies or markup), that agree on the three texts have the same
  id.
\<close>

theorem id_determined_by_triple:
  assumes "fst (extractReviewData e1) = Some r1"
    and "fst (extractReviewData e2) = Some r2"
    and "title r1 = title r2" and "nickname r1 = nickname r2" and "content r1 = content r2"
  shows "review_id r1 = review_id r2 \<and>
         deriveId (title r1) (nickname r1) (content r1) = Inr (review_id r1)"
  using extract_Some(2) [OF assms(1)] extract_Some(2) [OF assms(2)] assms(3-5) by simp

theorem id_determined_by_triple_witness:
  "review_id \<lparr>review_id = ascii ''TmljZQ=='', title = ascii ''Nice'', rating = 5, content = [],
              nickname = [], hasResponse = False, element = exampleNice\<rparr> =
   review_id \<lparr>review_id = ascii ''TmljZQ=='', title = ascii ''Nice'', rating = 0, content = [],
              nickname = [], hasResponse = True, element = exampleNiceAnswered\<rparr> \<and>
   deriveId (ascii ''Nice'') [] [] = Inr (ascii ''TmljZQ=='')"
  using id_determined_by_triple [OF exampleNice_extract exampleNiceAnswered_extract]
  by simp

lemma stripPrefix_Some_iff: "stripPrefix p s = Some r \<longleftrightarrow> s = p @ r"
  by (induction p s rule: stripPrefix.induct) auto

lemma stripPrefix_None_iff: "stripPrefix p s = None \<longleftrightarrow> \<not> prefix p s"
  by (induction p s rule: stripPrefix.induct) auto

lemma matchCount_Some:
  "matchCount s = Some d \<Longrightarrow> isDigit d \<and> (\<exists>pre post. s = pre @ ascii ''count-'' @ d # post)"
proof (induction s)
  case Nil
  then show ?case by simp
next
  case (Cons c cs)
  show ?case
  proof (cases "\<exists>post. stripPrefix (ascii ''count-'') (c # cs) = Some (d # post) \<and> isDigit d")
    case True
    then obtain post where "c # cs = ascii ''count-'' @ d # post" and "isDigit d"
      by (auto simp: stripPrefix_Some_iff)
    then have "c # cs = [] @ ascii ''count-'' @ d # post" by simp
    with \<open>isDigit d\<close> show ?thesis by blast
  next
    case False
    with Cons.prems have "matchCount cs = Some d"
      by (auto split: option.splits list.splits if_splits)
    with Cons.IH obtain pre post where "isDigit d" and "cs = pre @ ascii ''count-'' @ d # post"
      by blast
    then have "c # cs = (c # pre) @ ascii ''count-'' @ d # post" by simp
    with \<open>isDigit d\<close> show ?thesis by blast
  qed
qed

lemma matchCount_tail: "matchCount (c # cs) = None \<Longrightarrow> matchCount cs = None"
  by (auto split: option.splits list.splits if_splits)

lemma matchCount_None:
  "matchCount s = None \<Longrightarrow> s = pre @ ascii ''count-'' @ d # post \<Longrightarrow> \<not> isDigit d"
proof (induction s arbitrary: pre)
  case Nil
  then show ?case by simp
next
  case (Cons c cs)
  show ?case
  proof (cases pre)
    case Nil
    with Cons.prems(2) have "stripPrefix (ascii ''count-'') (c # cs) = Some (d # post)"
      by (simp only: stripPrefix_Some_iff append_Nil)
    with Cons.prems(1) show ?thesis
      by (auto split: if_splits)
  next
    case (Cons p pre')
    with Cons.prems(2) have "cs = pre' @ ascii ''count-'' @ d # post" by simp
    with Cons.IH matchCount_tail [OF Cons.prems(1)] show ?thesis by blast
  qed
qed

lemma parseIntDigit_le: "isDigit d \<Longrightarrow> parseIntDigit d \<le> 9"
  unfolding isDigit_def parseIntDigit_def word_le_nat_alt by auto

text \<open>
  C8, as stated, fails: the pattern \<open>count-(\d)\<close> takes any digit, so the class
  \<open>stars count-7\<close> gives the rating 7.
\<close>

theorem rating_above_five_counterexample:
  "map_option rating (fst (extractReviewData exampleSeven)) = Some 7 \<and> \<not> (7::nat) \<le> 5"
  by (simp add: exampleSeven_extract)

text \<open>
  C8, amended. The rating of every extracted record is an integer between 0 and 9. It is 0
  when the container has no rating element, and when the class name of the rating element
  has no \<open>count-\<close> followed by a digit; otherwise it is the value of a digit that follows
  a \<open>count-\<close> in the class name.
\<close>

theorem rating_single_digit:
  assumes "fst (extractReviewData el) = Some r"
  shows "rating r \<le> 9 \<and>
         (querySelector el SELECTORS_reviewRating = None \<longrightarrow> rating r = 0) \<and>
         (\<forall>n cls. querySelector el SELECTORS_reviewRating = Some n \<and> className n = ClassString cls \<longrightarrow>
            (if \<exists>pre d post. cls = pre @ ascii ''count-'' @ d # post \<and> isDigit d
             then \<exists>pre d post. cls = pre @ ascii ''count-'' @ d # post \<and> isDigit d \<and>
                    rating r = unat d - 0x30
             else rating r = 0))"
proof -
  note R = extract_Some(1) [OF assms]
  have a: "rating r \<le> 9"
  proof -
    have "rating r = 0 \<or> (\<exists>cls d. matchCount cls = Some d \<and> rating r = parseIntDigit d)"
      using R by (fastforce simp: ratingOf_def split: option.splits class_name.splits)
    then show ?thesis
      using matchCount_Some parseIntDigit_le by auto
  qed
  have b: "querySelector el SELECTORS_reviewRating = None \<longrightarrow> rating r = 0"
    using R by (auto simp: ratingOf_def)
  have c: "(if \<exists>pre d post. cls = pre @ ascii ''count-'' @ d # post \<and> isDigit d
             then \<exists>pre d post. cls = pre @ ascii ''count-'' @ d # post \<and> isDigit d \<and>
                    rating r = unat d - 0x30
             else rating r = 0)"
    if n: "querySelector el SELECTORS_reviewRating = Some n" "className n = ClassString cls" for n cls
  proof (cases "matchCount cls")
    case None
    have neg: "\<not> (\<exists>pre d post. cls = pre @ ascii ''count-'' @ d # post \<and> isDigit d)"
      using matchCount_None [OF None] by blast
    have z: "rating r = 0" using R n None by (simp add: ratingOf_def)
    show ?thesis by (subst if_not_P [OF neg]) (rule z)
  next
    case (Some d)
    have v: "rating r = unat d - 0x30"
      using R n Some by (simp add: ratingOf_def parseIntDigit_def)
    from matchCount_Some [OF Some] obtain pre post
      where d: "isDigit d" "cls = pre @ ascii ''count-'' @ d # post" by blast
    have pos: "\<exists>pre d post. cls = pre @ ascii ''count-'' @ d # post \<and> isDigit d"
      using d by blast
    have full: "\<exists>pre d post. cls = pre @ ascii ''count-'' @ d # post \<and> isDigit d \<and>
                    rating r = unat d - 0x30"
      using d v by blast
    show ?thesis by (subst if_P [OF pos]) (rule full)
  qed
  from a b c show ?thesis by blast
qed

theorem rating_single_digit_witness:
  "rating \<lparr>review_id = ascii ''TmljZQ=='', title = ascii ''Nice'', rating = 5, content = [],
           nickname = [], hasResponse = False, element = exampleNice\<rparr> \<le> 9 \<and>
   fst (extractReviewData exampleNiceAnswered) \<noteq> None \<and>
   querySelector exampleNiceAnswered SELECTORS_reviewRating = None"
  using rating_single_digit [OF exampleNice_extract]
    rating_single_digit [OF exampleNiceAnswered_extract] exampleNiceAnswered_extract
  by (simp add: exampleNiceAnswered_def querySelector_def SELECTORS_reviewRating_def
      SELECTORS_devResponse_def sel_titleDiv_def)


section \<open>The extractor: failures\<close>

lemma exampleAlice_extract:
  "fst (extractReviewData exampleAlice) =
     Some \<lparr>review_id = ascii ''R3JlYXQlMjBhcHAh'', title = ascii ''Great app!'', rating = 5,
           content = ascii ''Love it'', nickname = ascii ''alice'', hasResponse = False,
           element = exampleAlice\<rparr>"
  by (simp add: exampleAlice_def eval_defs)

lemma exampleBob_extract:
  "fst (extractReviewData exampleBob) =
     Some \<lparr>review_id = ascii ''R3JlYXQlMjBhcHAh'', title = ascii ''Great app!'', rating = 1,
           content = ascii ''Crashes on launch'', nickname = ascii ''bob'', hasResponse = True,
           element = exampleBob\<rparr>"
  by (simp add: exampleBob_def eval_defs)


lemma exampleLoneSurrogate_extract:
  "extractReviewData exampleLoneSurrogate =
     (None, [ExtractedReview [0xD83D] 0 [] [] False, ErrorExtracting URIError])"
  by (simp add: exampleLoneSurrogate_def eval_defs)

text \<open>
  C2. The claim is that triples differing in a component get different ids. The code
  keeps the first 16 base64 characters, that is the first 12 characters of the
  percent-encoded concatenation: the two reviews below share the title \<open>Great app!\<close> and
  differ in nickname and content, and both get the id \<open>R3JlYXQlMjBhcHAh\<close>.
\<close>

theorem id_collision_same_title:
  "map_option review_id (fst (extractReviewData exampleAlice)) = Some (ascii ''R3JlYXQlMjBhcHAh'') \<and>
   map_option review_id (fst (extractReviewData exampleBob)) = Some (ascii ''R3JlYXQlMjBhcHAh'') \<and>
   map_option nickname (fst (extractReviewData exampleAlice)) = Some (ascii ''alice'') \<and>
   map_option nickname (fst (extractReviewData exampleBob)) = Some (ascii ''bob'') \<and>
   map_option content (fst (extractReviewData exampleAlice)) = Some (ascii ''Love it'') \<and>
   map_option content (fst (extractReviewData exampleBob)) = Some (ascii ''Crashes on launch'')"
  by (simp add: exampleAlice_extract exampleBob_extract)


lemma prepend_Inr: "prepend p x = Inr s \<longleftrightarrow> (\<exists>t. x = Inr t \<and> s = p @ t)"
  by (cases x) auto


lemma hexDigit_byte: "hexDigit n \<le> 0xFF"
proof -
  have "list_all (\<lambda>c. c \<le> 0xFF) (ascii ''0123456789ABCDEF'')"
    by (simp add: ascii_def)
  moreover have "n mod 16 < length (ascii ''0123456789ABCDEF'')"
    by (simp add: ascii_def)
  ultimately show ?thesis
    unfolding hexDigit_def list_all_length by blast
qed

lemma percentEncode_bytes: "list_all (\<lambda>c. c \<le> 0xFF) (percentEncode cp)"
  by (simp add: percentEncode_def percentByte_def utf8_def hexDigit_byte)

lemma uriUnreserved_byte: "uriUnreserved c \<Longrightarrow> c \<le> 0xFF"
  unfolding uriUnreserved_def word_le_nat_alt by auto

lemma encodeURIComponent_bytes:
  "encodeURIComponent s = Inr e \<Longrightarrow> list_all (\<lambda>c. c \<le> 0xFF) e"
  by (induction s arbitrary: e rule: encodeURIComponent.induct)
    (auto simp: prepend_Inr percentEncode_bytes uriUnreserved_byte split: if_splits list.splits)

lemma btoa_bytes: "list_all (\<lambda>c. c \<le> 0xFF) e \<Longrightarrow> btoa e = Inr (base64 (map unat e))"
  by (auto simp: btoa_def list_ex_iff list_all_iff)


text \<open>
  The id is a function of the first 12 characters of the percent-encoded text: whatever
  follows them is cut off with the base64 text.
\<close>

lemma base64_blocks:
  "length xs = 3 * k \<Longrightarrow>
     base64 (xs @ ys) = base64 xs @ base64 ys \<and> length (base64 xs) = 4 * k"
proof (induction k arbitrary: xs)
  case 0
  then show ?case by simp
next
  case (Suc k)
  then have "length xs = Suc (Suc (Suc (3 * k)))" by simp
  then obtain a b c xs' where x: "xs = a # b # c # xs'" "length xs' = 3 * k"
    by (auto simp: length_Suc_conv)
  from Suc.IH [OF x(2)] show ?case by (simp add: x(1))
qed

lemma base64_take12: "take 16 (base64 bs) = take 16 (base64 (take 12 bs))"
proof (cases "12 \<le> length bs")
  case True
  then have l: "length (take 12 bs) = 3 * 4" by simp
  have "base64 bs = base64 (take 12 bs @ drop 12 bs)" by simp
  also have "\<dots> = base64 (take 12 bs) @ base64 (drop 12 bs)"
    using base64_blocks [OF l] by blast
  finally have "take 16 (base64 bs) = take 16 (base64 (take 12 bs) @ base64 (drop 12 bs))"
    by simp
  moreover have "length (base64 (take 12 bs)) = 16"
    using base64_blocks [OF l, of "[]"] by simp
  ultimately show ?thesis by simp
next
  case False
  then show ?thesis by simp
qed

lemma id_from_prefix:
  assumes "encodeURIComponent (t @ n @ c) = Inr e"
  shows "deriveId t n c = Inr (take 16 (base64 (map unat (take 12 e))))"
proof -
  have b: "btoa e = Inr (base64 (map unat e))"
    by (rule btoa_bytes [OF encodeURIComponent_bytes [OF assms]])
  have "take 16 (base64 (map unat e)) = take 16 (base64 (take 12 (map unat e)))"
    by (rule base64_take12)
  then show ?thesis
    by (simp add: deriveId_def assms b substring0_def take_map)
qed






lemma scanElement_None:
  "fst (extractReviewData el) = None \<Longrightarrow> fst (scanElement el acc) = fst acc"
  by (cases "extractReviewData el") (auto simp: scanElement_def)

lemma scanElement_Some:
  "fst (extractReviewData el) = Some r \<Longrightarrow> fst (scanElement el acc) = addReview r (fst acc)"
  by (cases "extractReviewData el") (auto simp: scanElement_def addReview_def)

lemma fold_scanElement:
  "fst (fold scanElement els acc) = fold addReview (extracted els) (fst acc)"
proof (induction els arbitrary: acc)
  case Nil
  then show ?case by simp
next
  case (Cons el els)
  show ?case
  proof (cases "fst (extractReviewData el)")
    case None
    then show ?thesis by (simp add: Cons.IH scanElement_None)
  next
    case (Some r)
    then show ?thesis by (simp add: Cons.IH scanElement_Some)
  qed
qed


lemma scanLoop_extracted:
  "fst (scanLoop els st) =
     fold addReview (extracted els) (st\<lparr>reviews := [], totalReviews := 0, unansweredReviews := 0\<rparr>)"
  by (simp add: scanLoop_def fold_scanElement)


lemma total_fold: "totalReviews (fold addReview rs st) = totalReviews st + length rs"
  by (induction rs arbitrary: st) (auto simp: addReview_def)

lemma unanswered_fold:
  "unansweredReviews (fold addReview rs st) =
     unansweredReviews st + length (filter (\<lambda>r. \<not> hasResponse r) rs)"
  by (induction rs arbitrary: st) (auto simp: addReview_def)

lemma reviews_fold:
  "reviews (fold addReview rs st) = fold (\<lambda>r. mapSet (review_id r) r) rs (reviews st)"
  by (induction rs arbitrary: st) (auto simp: addReview_def)

lemma mapSet_fresh: "k \<notin> fst ` set m \<Longrightarrow> mapSet k v m = m @ [(k, v)]"
  by (induction m) auto

lemma length_mapSet: "length (mapSet k v m) \<le> Suc (length m)"
  by (induction m) auto

lemma length_fold_mapSet:
  "length (fold (\<lambda>r. mapSet (review_id r) r) rs m) \<le> length m + length rs"
proof (induction rs arbitrary: m)
  case Nil
  then show ?case by simp
next
  case (Cons r rs)
  have "length (fold (\<lambda>r. mapSet (review_id r) r) rs (mapSet (review_id r) r m))
          \<le> length (mapSet (review_id r) r m) + length rs"
    by (rule Cons.IH)
  also have "\<dots> \<le> Suc (length m) + length rs"
    using length_mapSet [of "review_id r" r m] by simp
  finally show ?case by simp
qed

lemma fold_mapSet_distinct:
  "distinct (map fst m @ map review_id rs) \<Longrightarrow>
     fold (\<lambda>r. mapSet (review_id r) r) rs m = m @ map (\<lambda>r. (review_id r, r)) rs"
proof (induction rs arbitrary: m)
  case Nil
  then show ?case by simp
next
  case (Cons r rs)
  from Cons.prems have fresh: "review_id r \<notin> fst ` set m" by auto
  from Cons.prems have "distinct (map fst (m @ [(review_id r, r)]) @ map review_id rs)"
    by auto
  from Cons.IH [OF this] show ?case
    by (simp add: mapSet_fresh [OF fresh])
qed

lemma state_after_scanReviews:
  "state_after (scanReviews doc st) = fst (scanLoop (reviewContainers doc) st)"
  by (simp add: scanReviews_def Let_def querySelectorAll_reviewContainer_def
      split: option.splits)








section \<open>The scanner: counts and snapshot\<close>

text \<open>
  C1, as stated, fails: the loop counts containers, the map keeps one entry per id. Two
  containers with the same title and no other text have the same id; the scan reports a
  total of 2 and 1 unanswered, the snapshot has 1 entry and none unanswered.
\<close>

theorem scan_counts_collision_counterexample:
  "totalReviews (state_after (scanReviews exampleTwins emptyState)) = 2 \<and>
   mapSize (reviews (state_after (scanReviews exampleTwins emptyState))) = 1 \<and>
   unansweredReviews (state_after (scanReviews exampleTwins emptyState)) = 1 \<and>
   unansweredIn (reviews (state_after (scanReviews exampleTwins emptyState))) = 0"
  by (simp add: state_after_scanReviews scanLoop_extracted exampleTwins_def emptyState_def
      exampleNice_extract exampleNiceAnswered_extract addReview_def mapSize_def unansweredIn_def)

text \<open>
  C1, amended. After every scan, completed or not, the reported total is the number of
  containers whose extraction succeeded and the reported unanswered count is the number
  of those without a reply; the snapshot has at most that many entries; and when the ids
  of the extracted records are pairwise different, the total is the size of the snapshot
  and the unanswered count is the number of snapshot entries with \<open>hasResponse = false\<close>.
\<close>

theorem scan_counts:
  "totalReviews (state_after (scanReviews doc st)) = length (extracted (reviewContainers doc)) \<and>
   unansweredReviews (state_after (scanReviews doc st)) =
     length (filter (\<lambda>r. \<not> hasResponse r) (extracted (reviewContainers doc))) \<and>
   mapSize (reviews (state_after (scanReviews doc st)))
     \<le> totalReviews (state_after (scanReviews doc st)) \<and>
   (distinct (map review_id (extracted (reviewContainers doc))) \<longrightarrow>
      totalReviews (state_after (scanReviews doc st)) =
        mapSize (reviews (state_after (scanReviews doc st))) \<and>
      unansweredReviews (state_after (scanReviews doc st)) =
        unansweredIn (reviews (state_after (scanReviews doc st))))"
proof -
  let ?rs = "extracted (reviewContainers doc)"
  have sa: "state_after (scanReviews doc st) = fst (scanLoop (reviewContainers doc) st)"
    by (simp add: scanReviews_def Let_def querySelectorAll_reviewContainer_def
        split: option.splits)
  have t: "totalReviews (state_after (scanReviews doc st)) = length ?rs"
    by (simp add: sa scanLoop_extracted total_fold)
  have u: "unansweredReviews (state_after (scanReviews doc st)) =
             length (filter (\<lambda>r. \<not> hasResponse r) ?rs)"
    by (simp add: sa scanLoop_extracted unanswered_fold)
  have m: "reviews (state_after (scanReviews doc st)) =
             fold (\<lambda>r. mapSet (review_id r) r) ?rs []"
    by (simp add: sa scanLoop_extracted reviews_fold)
  have le: "mapSize (reviews (state_after (scanReviews doc st))) \<le> length ?rs"
    using length_fold_mapSet [of ?rs "[]"] by (simp add: m mapSize_def)
  have d: "totalReviews (state_after (scanReviews doc st)) =
             mapSize (reviews (state_after (scanReviews doc st))) \<and>
           unansweredReviews (state_after (scanReviews doc st)) =
             unansweredIn (reviews (state_after (scanReviews doc st)))"
    if "distinct (map review_id ?rs)"
  proof -
    have "reviews (state_after (scanReviews doc st)) = map (\<lambda>r. (review_id r, r)) ?rs"
      using fold_mapSet_distinct [of "[]" ?rs] that by (simp add: m)
    then show ?thesis
      by (simp add: t u mapSize_def unansweredIn_def filter_map comp_def)
  qed
  from t u le d show ?thesis by simp
qed


theorem scan_counts_witness:
  "distinct (map review_id (extracted (reviewContainers exampleDistinct))) \<and>
   totalReviews (state_after (scanReviews exampleDistinct emptyState)) = 2 \<and>
   mapSize (reviews (state_after (scanReviews exampleDistinct emptyState))) = 2 \<and>
   unansweredIn (reviews (state_after (scanReviews exampleDistinct emptyState))) = 2"
  using scan_counts [of exampleDistinct emptyState]
  by (simp add: exampleDistinct_def exampleNice_extract exampleSeven_extract ascii_def)


section \<open>The analysis cache is fresh for 24 hours\<close>




section \<open>The knowledge-base matcher\<close>

lemma str_includes_sublist: "str_includes s t \<longleftrightarrow> sublist t s"
proof (induction s)
  case Nil
  then show ?case by simp
next
  case (Cons c cs)
  have "stripPrefix t (c # cs) \<noteq> None \<longleftrightarrow> prefix t (c # cs)"
    by (simp add: stripPrefix_None_iff)
  with Cons show ?case
    by (simp add: sublist_Cons_right)
qed

lemma fold_count: "fold (\<lambda>k sc. if P k then sc + 1 else sc) ks (n::nat) = n + length (filter P ks)"
  by (induction ks arbitrary: n) auto

lemma scoreItem_overlap:
  "scoreItem lc (lc txt) it = keywordOverlap lc txt it"
  by (simp add: scoreItem_def keywordOverlap_def fold_count str_includes_sublist)

lemma fold_pushScored:
  "fold (pushScored lc (lc txt)) troubles acc = acc @ candidates lc txt troubles"
  by (induction troubles arbitrary: acc)
    (auto simp: pushScored_def candidates_def scoreItem_overlap Let_def)

lemma insertSorted_insort:
  "insertSorted (\<lambda>a b. int (score b) - int (score a)) x ys = insort_key (\<lambda>m. - int (score m)) x ys"
  by (induction ys) auto

lemma arraySort_sort_key:
  "arraySort (\<lambda>a b. int (score b) - int (score a)) xs = sort_key (\<lambda>m. - int (score m)) xs"
  by (induction xs) (auto simp: arraySort_def insertSorted_insort)

lemma sorted_desc:
  "sorted_wrt (\<lambda>a b. score b \<le> score a) (sort_key (\<lambda>m. - int (score m)) xs)"
proof -
  have "sorted (map (\<lambda>m. - int (score m)) (sort_key (\<lambda>m. - int (score m)) xs))"
    by (rule sorted_sort_key)
  then show ?thesis
    by (simp add: sorted_map sorted_wrt_iff_nth_less)
qed


lemma isAscii_ascii_lower:
  assumes "\<forall>s. isAscii s \<longrightarrow> lc s = asciiLower s" and "isAscii s"
  shows "lc s = asciiLower s"
  using assms by blast

lemma example_match:
  assumes lc: "\<forall>s. isAscii s \<longrightarrow> lc s = asciiLower s"
  shows "matchKnowledgeBase lc (Some [exampleCrash, exampleBilling]) exampleInvoiceReview =
           [\<lparr>match_id = ascii ''billing'', score = 1, item = exampleBilling\<rparr>]"
proof -
  define low where "low = ascii ''i can'' @ [0x27] @ ascii ''t find my invoice''"
  have "lc (title exampleInvoiceReview @ ascii '' '' @ content exampleInvoiceReview) =
          asciiLower (title exampleInvoiceReview @ ascii '' '' @ content exampleInvoiceReview)"
    by (rule isAscii_ascii_lower [OF lc])
      (simp add: exampleInvoiceReview_def isAscii_def ascii_def)
  also have "\<dots> = low"
    by (simp add: low_def exampleInvoiceReview_def ascii_def asciiLower_def)
  finally have t:
    "lc (title exampleInvoiceReview @ ascii '' '' @ content exampleInvoiceReview) = low" .
  have k: "lc (ascii ''invoice'') = ascii ''invoice''" "lc (ascii ''payment'') = ascii ''payment''"
    "lc (ascii ''crash'') = ascii ''crash''" "lc (ascii ''freeze'') = ascii ''freeze''"
    by (subst isAscii_ascii_lower [OF lc]; simp add: isAscii_def ascii_def asciiLower_def)+
  have crash: "scoreItem lc low exampleCrash = 0"
    by (simp add: scoreItem_def exampleCrash_def k) (simp add: ascii_def low_def)
  have bill: "scoreItem lc low exampleBilling = Suc 0"
    by (simp add: scoreItem_def exampleBilling_def k) (simp add: ascii_def low_def)
  have i: "trouble_id exampleBilling = ascii ''billing''"
    by (simp add: exampleBilling_def)
  show ?thesis
    by (simp add: matchKnowledgeBase_def t Let_def pushScored_def crash bill arraySort_def i)
qed

text \<open>
  C3. For every review and every loaded knowledge base, the matcher returns the first
  three of a list \<open>full\<close> that holds exactly the entries with a positive score, the score
  of an entry being the number of its keywords that occur, in lower case, in the lower
  case of \<open>title + ' ' + content\<close>; \<open>full\<close> is in descending order of score, and entries
  of equal score are in knowledge-base order. With keywords \<open>invoice\<close>, \<open>payment\<close> and the
  text \<open>I can't find my invoice\<close> the billing entry is returned with score 1, and the
  entry without overlap is left out (for any \<open>toLowerCase\<close> that is the ASCII one on ASCII
  strings).
\<close>

theorem matchKnowledgeBase_top3:
  "(\<exists>full. matchKnowledgeBase lc (Some kb) rv = take 3 full \<and>
      mset full = mset (candidates lc (title rv @ ascii '' '' @ content rv) kb) \<and>
      sorted_wrt (\<lambda>a b. score b \<le> score a) full \<and>
      (\<forall>s. filter (\<lambda>m. score m = s) full =
            filter (\<lambda>m. score m = s) (candidates lc (title rv @ ascii '' '' @ content rv) kb))) \<and>
   length (matchKnowledgeBase lc (Some kb) rv) \<le> 3 \<and>
   ((\<forall>s. isAscii s \<longrightarrow> lc s = asciiLower s) \<longrightarrow>
      matchKnowledgeBase lc (Some [exampleCrash, exampleBilling]) exampleInvoiceReview =
        [\<lparr>match_id = ascii ''billing'', score = 1, item = exampleBilling\<rparr>])"
proof -
  let ?txt = "title rv @ ascii '' '' @ content rv"
  let ?full = "sort_key (\<lambda>m. - int (score m)) (candidates lc ?txt kb)"
  have r: "matchKnowledgeBase lc (Some kb) rv = take 3 ?full"
    by (simp add: matchKnowledgeBase_def Let_def fold_pushScored arraySort_sort_key)
  have st: "filter (\<lambda>m. score m = s) ?full = filter (\<lambda>m. score m = s) (candidates lc ?txt kb)" for s
    using sort_key_stable [of "\<lambda>m. - int (score m)" "- int s" "candidates lc ?txt kb"]
    by simp
  have "matchKnowledgeBase lc (Some kb) rv = take 3 ?full \<and>
      mset ?full = mset (candidates lc ?txt kb) \<and>
      sorted_wrt (\<lambda>a b. score b \<le> score a) ?full \<and>
      (\<forall>s. filter (\<lambda>m. score m = s) ?full = filter (\<lambda>m. score m = s) (candidates lc ?txt kb))"
    using r st sorted_desc by simp
  then have a: "\<exists>full. matchKnowledgeBase lc (Some kb) rv = take 3 full \<and>
      mset full = mset (candidates lc ?txt kb) \<and>
      sorted_wrt (\<lambda>a b. score b \<le> score a) full \<and>
      (\<forall>s. filter (\<lambda>m. score m = s) full = filter (\<lambda>m. score m = s) (candidates lc ?txt kb))"
    by blast
  have b: "length (matchKnowledgeBase lc (Some kb) rv) \<le> 3"
    by (simp add: r)
  from a b example_match show ?thesis by blast
qed

theorem matchKnowledgeBase_top3_witness:
  "matchKnowledgeBase asciiLower (Some [exampleCrash, exampleBilling]) exampleInvoiceReview =
     [\<lparr>match_id = ascii ''billing'', score = 1, item = exampleBilling\<rparr>] \<and>
   score (hd (matchKnowledgeBase asciiLower (Some [exampleCrash, exampleBilling])
     exampleInvoiceReview)) = 1"
proof -
  have "\<forall>s. isAscii s \<longrightarrow> asciiLower s = asciiLower s" by simp
  with matchKnowledgeBase_top3 [where lc = asciiLower and kb = "[exampleCrash, exampleBilling]"
      and rv = exampleInvoiceReview]
  have m: "matchKnowledgeBase asciiLower (Some [exampleCrash, exampleBilling])
             exampleInvoiceReview =
           [\<lparr>match_id = ascii ''billing'', score = 1, item = exampleBilling\<rparr>]"
    by blast
  show ?thesis by (simp add: m)
qed



section \<open>The mutation observer: one rescan for a burst\<close>














lemma run_append: "run (xs @ ys) pg = run ys (run xs pg)"
  by (simp add: run_def)

lemma run_Cons: "run (e # es) pg = run es (step e pg)"
  by (simp add: run_def)

lemma scanTask_ignores_state:
  "scanTask line st (pg\<lparr>page_state := s\<rparr>) = scanTask line st pg"
  by (simp add: scanTask_def Let_def observerCallback_def)













section \<open>The counter widget is injected once\<close>

lemma elementsById_append:
  "elementsById i (xs @ ys) = elementsById i xs @ elementsById i ys"
  by (induction i xs rule: elementsById.induct) auto

lemma map_sum_id_Inr: "map_sum id g a = Inr y \<longleftrightarrow> (\<exists>x. a = Inr x \<and> y = g x)"
  by (cases a) auto

lemma removeFirstById_fewer:
  "removeFirstById i ns = Some ns' \<Longrightarrow>
     Suc (length (elementsById i ns')) \<le> length (elementsById i ns)"
proof (induction i ns arbitrary: ns' rule: removeFirstById.induct)
  case (1 i)
  then show ?case by simp
next
  case (2 i t rest)
  then obtain rest' where "removeFirstById i rest = Some rest'" "ns' = TextNode t # rest'"
    by auto
  with 2(1) show ?case by simp
next
  case (3 i j cls kids rest)
  show ?case
  proof (cases "j = i")
    case True
    with 3(3) show ?thesis by simp
  next
    case False
    show ?thesis
    proof (cases "removeFirstById i kids")
      case None
      with False 3(3) obtain rest' where r: "removeFirstById i rest = Some rest'"
        "ns' = Element j cls kids # rest'"
        by auto
      from 3(2) [OF False None r(1)] show ?thesis by (simp add: r(2) False)
    next
      case (Some kids')
      with False 3(3) have n: "ns' = Element j cls kids' # rest" by simp
      from 3(1) [OF False Some] show ?thesis by (simp add: n False)
    qed
  qed
qed

lemma removeFirstById_None:
  "removeFirstById i ns = None \<Longrightarrow> elementsById i ns = []"
  by (induction i ns rule: removeFirstById.induct) (auto split: if_splits option.splits)

lemma after_remove:
  assumes "length (elementsById i ns) \<le> 1"
  shows "elementsById i (case removeFirstById i ns of Some ns' \<Rightarrow> ns' | None \<Rightarrow> ns) = []"
proof (cases "removeFirstById i ns")
  case None
  then show ?thesis by (simp add: removeFirstById_None)
next
  case (Some ns')
  from removeFirstById_fewer [OF Some] assms have "length (elementsById i ns') = 0" by linarith
  with Some show ?thesis by simp
qed

lemma placeCounter_ids:
  assumes "placeCounter w kids = Inr kids'" and "elementsById i kids = []"
  shows "elementsById i kids' = elementsById i [w]"
proof -
  have tk: "elementsById i (take k kids) = [] \<and> elementsById i (drop k kids) = []" for k
  proof -
    have "elementsById i (take k kids @ drop k kids) = []" using assms(2) by simp
    then show ?thesis unfolding elementsById_append by simp
  qed
  from assms(1) consider "kids' = kids @ [w]" | k where "kids' = take k kids @ [w] @ drop k kids"
    by (auto simp: placeCounter_def split: option.splits list.splits)
  then show ?thesis
  proof cases
    case 1
    then have "elementsById i kids' = elementsById i kids @ elementsById i [w]"
      by (simp only: elementsById_append)
    with assms(2) show ?thesis by simp
  next
    case 2
    then have "elementsById i kids' =
        elementsById i (take k kids) @ elementsById i [w] @ elementsById i (drop k kids)"
      by (simp only: elementsById_append)
    with tk [of k] show ?thesis by simp
  qed
qed

lemma atFirstById_ids:
  "atFirstById h f ns = Some (Inr ns') \<Longrightarrow>
   (\<forall>kids kids'. f kids = Inr kids' \<longrightarrow> elementsById i kids = [] \<longrightarrow> elementsById i kids' = W) \<Longrightarrow>
   elementsById i ns = [] \<Longrightarrow> h \<noteq> i \<Longrightarrow> elementsById i ns' = W"
proof (induction h f ns arbitrary: ns' rule: atFirstById.induct)
  case (1 h f)
  then show ?case by simp
next
  case (2 h f t rest)
  from "2.prems"(1) obtain rest' where r: "atFirstById h f rest = Some (Inr rest')"
    "ns' = TextNode t # rest'"
    by (auto simp: map_sum_id_Inr)
  from "2.prems"(3) have "elementsById i rest = []" by simp
  from "2.IH" [OF r(1) "2.prems"(2) this "2.prems"(4)] show ?case by (simp add: r(2))
next
  case (3 h f j cls kids rest)
  from "3.prems"(3) have e: "elementsById i kids = []" "elementsById i rest = []" "j \<noteq> i"
    by (auto split: if_splits)
  show ?case
  proof (cases "j = h")
    case True
    with "3.prems"(1) obtain kids' where k: "f kids = Inr kids'"
      "ns' = Element j cls kids' # rest"
      by (auto simp: map_sum_id_Inr)
    from "3.prems"(2) k(1) e(1) have "elementsById i kids' = W" by blast
    then show ?thesis by (simp add: k(2) e)
  next
    case False
    show ?thesis
    proof (cases "atFirstById h f kids")
      case None
      with False "3.prems"(1) obtain rest' where r: "atFirstById h f rest = Some (Inr rest')"
        "ns' = Element j cls kids # rest'"
        by (auto simp: map_sum_id_Inr)
      from "3.IH"(2) [OF False None r(1) "3.prems"(2) e(2) "3.prems"(4)] show ?thesis
        by (simp add: r(2) e)
    next
      case (Some r)
      with False "3.prems"(1) obtain kids' where k: "r = Inr kids'"
        "ns' = Element j cls kids' # rest"
        by (auto simp: map_sum_id_Inr)
      from "3.IH"(1) [OF False Some [unfolded k(1)] "3.prems"(2) e(1) "3.prems"(4)]
      show ?thesis by (simp add: k(2) e)
    qed
  qed
qed

lemma atFirstById_None: "atFirstById h f ns = None \<Longrightarrow> elementsById h ns = []"
  by (induction h f ns rule: atFirstById.induct) (auto split: if_splits option.splits)

lemma atFirstById_keeps:
  "atFirstById h f ns = Some (Inr ns') \<Longrightarrow> elementsById h ns' \<noteq> []"
proof (induction h f ns arbitrary: ns' rule: atFirstById.induct)
  case (1 h f)
  then show ?case by simp
next
  case (2 h f t rest)
  from "2.prems" obtain rest' where r: "atFirstById h f rest = Some (Inr rest')"
    "ns' = TextNode t # rest'"
    by (auto simp: map_sum_id_Inr)
  from "2.IH" [OF r(1)] show ?case by (simp add: r(2))
next
  case (3 h f j cls kids rest)
  show ?case
  proof (cases "j = h")
    case True
    with "3.prems" show ?thesis by (auto simp: map_sum_id_Inr)
  next
    case False
    show ?thesis
    proof (cases "atFirstById h f kids")
      case None
      with False "3.prems" obtain rest' where r: "atFirstById h f rest = Some (Inr rest')"
        "ns' = Element j cls kids # rest'"
        by (auto simp: map_sum_id_Inr)
      from "3.IH"(2) [OF False None r(1)] show ?thesis by (simp add: r(2))
    next
      case (Some r)
      with False "3.prems" obtain kids' where k: "r = Inr kids'"
        "ns' = Element j cls kids' # rest"
        by (auto simp: map_sum_id_Inr)
      from "3.IH"(1) [OF False Some [unfolded k(1)]] show ?thesis by (simp add: k(2))
    qed
  qed
qed

lemma counterDiv_ids:
  "elementsById ''reviewllama-counter'' [counterDiv t u] = [counterDiv t u]"
  by (simp add: counterDiv_def)

lemma inject_once:
  assumes "length (elementsById ''reviewllama-counter'' ns) \<le> 1"
    and "injectReviewCounter st ns = (ns', lg, None)"
  shows "elementsById ''reviewllama-counter'' ns' =
           (if elementsById ''reviews-header'' ns' \<noteq> []
            then [counterDiv (totalReviews st) (unansweredReviews st)] else [])"
proof -
  define ns1 where
    "ns1 = (case removeFirstById ''reviewllama-counter'' ns of Some x \<Rightarrow> x | None \<Rightarrow> ns)"
  have c0: "elementsById ''reviewllama-counter'' ns1 = []"
    unfolding ns1_def by (rule after_remove [OF assms(1)])
  let ?f = "placeCounter (counterDiv (totalReviews st) (unansweredReviews st))"
  show ?thesis
  proof (cases "atFirstById ''reviews-header'' ?f ns1")
    case None
    with assms(2) have "ns' = ns1"
      by (simp add: injectReviewCounter_def Let_def ns1_def)
    with c0 atFirstById_None [OF None] show ?thesis by simp
  next
    case (Some r)
    with assms(2) have r: "r = Inr ns'"
      by (cases r) (auto simp: injectReviewCounter_def Let_def ns1_def)
    have "elementsById ''reviewllama-counter'' ns' =
            [counterDiv (totalReviews st) (unansweredReviews st)]"
    proof (rule atFirstById_ids [OF Some [unfolded r] _ c0])
      show "\<forall>kids kids'. ?f kids = Inr kids' \<longrightarrow>
              elementsById ''reviewllama-counter'' kids = [] \<longrightarrow>
              elementsById ''reviewllama-counter'' kids' =
                [counterDiv (totalReviews st) (unansweredReviews st)]"
        using placeCounter_ids by (simp add: counterDiv_ids)
    qed simp
    with atFirstById_keeps [OF Some [unfolded r]] show ?thesis by simp
  qed
qed

lemma map_sum_id_Inl: "map_sum id g a = Inl e \<longleftrightarrow> a = Inl e"
  by (cases a) auto

lemma placeCounter_error: "placeCounter w kids = Inl e \<Longrightarrow> e = NotFoundError"
  by (auto simp: placeCounter_def split: option.splits list.splits)

lemma atFirstById_error:
  "atFirstById h f xs = Some (Inl e) \<Longrightarrow> (\<forall>kids. f kids = Inl e \<longrightarrow> e = NotFoundError) \<Longrightarrow>
     e = NotFoundError"
proof (induction h f xs rule: atFirstById.induct)
  case (1 i f)
  then show ?case by simp
next
  case (2 i f t rest)
  then show ?case by (auto simp: map_sum_id_Inl)
next
  case (3 i f j cls kids rest)
  show ?case
  proof (cases "j = i")
    case True
    with "3.prems" show ?thesis by (auto simp: map_sum_id_Inl)
  next
    case False
    show ?thesis
    proof (cases "atFirstById i f kids")
      case None
      with False "3.prems"(1) have "atFirstById i f rest = Some (Inl e)"
        by (auto simp: map_sum_id_Inl)
      from "3.IH"(2) [OF False None this "3.prems"(2)] show ?thesis .
    next
      case (Some r)
      with False "3.prems"(1) have "r = Inl e" by (auto simp: map_sum_id_Inl)
      from "3.IH"(1) [OF False Some [unfolded this] "3.prems"(2)] show ?thesis .
    qed
  qed
qed

lemma inject_error:
  "snd (snd (injectReviewCounter st ns)) = Some e \<Longrightarrow> e = NotFoundError"
  by (auto simp: injectReviewCounter_def Let_def split: option.splits sum.splits
      dest!: atFirstById_error dest: placeCounter_error)

lemmas inject_eval = injectReviewCounter_def Let_def placeCounter_def counterDiv_def

lemma exampleHeader_once:
  "injectReviewCounter emptyState exampleHeader =
     ([Element ''reviews-header'' []
         [Element ''total-reviews'' [] [TextNode (ascii ''2 Reviews'')],
          counterDiv 0 0,
          Element [] [''hasPopOver''] [TextNode (ascii ''Sort'')]]], [], None)"
  by (simp add: inject_eval exampleHeader_def emptyState_def)

lemma exampleHeader_twice:
  "injectReviewCounter exampleCounts
     [Element ''reviews-header'' []
         [Element ''total-reviews'' [] [TextNode (ascii ''2 Reviews'')],
          counterDiv 0 0,
          Element [] [''hasPopOver''] [TextNode (ascii ''Sort'')]]] =
     ([Element ''reviews-header'' []
         [Element ''total-reviews'' [] [TextNode (ascii ''2 Reviews'')],
          counterDiv 12 3,
          Element [] [''hasPopOver''] [TextNode (ascii ''Sort'')]]], [], None)"
  by (simp add: inject_eval exampleCounts_def)

text \<open>
  C9, as stated, fails on two documents. Where two elements already have the id
  \<open>reviewllama-counter\<close>, each call removes one and adds one: two remain after two calls.
  Where the first \<open>.hasPopOver\<close> element under the header is not a child of the header,
  \<open>insertBefore\<close> throws NotFoundError: the header is present and no widget is.
\<close>

theorem inject_twice_counterexample:
  "snd (snd (injectReviewCounter emptyState exampleDuplicates)) = None \<and>
   snd (snd (injectReviewCounter emptyState
     (fst (injectReviewCounter emptyState exampleDuplicates)))) = None \<and>
   length (elementsById ''reviewllama-counter''
     (fst (injectReviewCounter emptyState
        (fst (injectReviewCounter emptyState exampleDuplicates))))) = 2 \<and>
   injectReviewCounter emptyState exampleNestedMenu = (exampleNestedMenu, [], Some NotFoundError) \<and>
   elementsById ''reviews-header'' exampleNestedMenu \<noteq> [] \<and>
   elementsById ''reviewllama-counter'' exampleNestedMenu = []"
  by (simp add: inject_eval exampleDuplicates_def exampleNestedMenu_def emptyState_def)

text \<open>
  C9, amended. For every document with at most one element with id
  \<open>reviewllama-counter\<close>, two calls of the injection in a row that both return leave at
  most one such element: exactly one, the widget with the total and unanswered counts of
  the second call, when the reviews header is present, and none when it is not.
\<close>

theorem inject_twice_one_widget:
  assumes "length (elementsById ''reviewllama-counter'' ns) \<le> 1"
    and "injectReviewCounter st1 ns = (ns1, lg1, None)"
    and "injectReviewCounter st2 ns1 = (ns2, lg2, None)"
  shows "length (elementsById ''reviewllama-counter'' ns2) \<le> 1 \<and>
         (elementsById ''reviews-header'' ns2 \<noteq> [] \<longrightarrow>
            elementsById ''reviewllama-counter'' ns2 =
              [counterDiv (totalReviews st2) (unansweredReviews st2)]) \<and>
         (elementsById ''reviews-header'' ns2 = [] \<longrightarrow>
            elementsById ''reviewllama-counter'' ns2 = [])"
proof -
  have "length (elementsById ''reviewllama-counter'' ns1) \<le> 1"
    by (simp add: inject_once [OF assms(1,2)])
  from inject_once [OF this assms(3)] show ?thesis by simp
qed

theorem inject_twice_one_widget_witness:
  "length (elementsById ''reviewllama-counter'' exampleHeader) \<le> 1 \<and>
   elementsById ''reviewllama-counter''
     [Element ''reviews-header'' []
         [Element ''total-reviews'' [] [TextNode (ascii ''2 Reviews'')],
          counterDiv 12 3,
          Element [] [''hasPopOver''] [TextNode (ascii ''Sort'')]]] = [counterDiv 12 3]"
proof -
  have c: "length (elementsById ''reviewllama-counter'' exampleHeader) \<le> 1"
    by (simp add: exampleHeader_def)
  from inject_twice_one_widget [OF c exampleHeader_once exampleHeader_twice] c
  show ?thesis by (simp add: exampleCounts_def)
qed


end
